theory Spec2Isabelle
  imports Main "HOL-Library.AList"
begin

section \<open>Python strings\<close>

text \<open>
  The source is Python 3; its \<^verbatim>\<open>str\<close> values are sequences of code points. They are
  modelled as \<^typ>\<open>string\<close>, every \<^typ>\<open>char\<close> standing for the code point of the same
  number (U+0000 to U+00FF). The character classes below are those of Python on that range.
\<close>

definition isspace :: "char \<Rightarrow> bool" where
  \<comment> \<open>\<^verbatim>\<open>str.isspace\<close> on one character: TAB..CR, FS..US, SPACE, NEL, NBSP.\<close>
  "isspace c =
     (let n = (of_char c :: nat)
      in (9 \<le> n \<and> n \<le> 13) \<or> (28 \<le> n \<and> n \<le> 32) \<or> n = 133 \<or> n = 160)"

definition strip :: "string \<Rightarrow> string" where
  \<comment> \<open>\<^verbatim>\<open>str.strip()\<close>: leading and trailing whitespace removed.\<close>
  "strip s = rev (dropWhile isspace (rev (dropWhile isspace s)))"

definition lower_char :: "char \<Rightarrow> char" where
  \<comment> \<open>A..Z and the capital letters U+00C0..U+00DE (but the sign U+00D7) have a lower case.\<close>
  "lower_char c =
     (let n = (of_char c :: nat)
      in if (65 \<le> n \<and> n \<le> 90) \<or> (192 \<le> n \<and> n \<le> 222 \<and> n \<noteq> 215)
         then char_of (n + 32) else c)"

definition lower :: "string \<Rightarrow> string" where
  "lower s = map lower_char s"

definition is_decimal :: "char \<Rightarrow> bool" where
  \<comment> \<open>The decimal digits (what \<^verbatim>\<open>\d\<close> matches and \<^verbatim>\<open>int\<close> reads): 0..9.\<close>
  "is_decimal c = (let n = (of_char c :: nat) in 48 \<le> n \<and> n \<le> 57)"

definition digit_val :: "char \<Rightarrow> nat" where
  "digit_val c = (of_char c :: nat) - 48"

definition isdigit_char :: "char \<Rightarrow> bool" where
  \<comment> \<open>\<^verbatim>\<open>str.isdigit\<close> on one character: 0..9 and the superscripts U+00B2, U+00B3, U+00B9.\<close>
  "isdigit_char c =
     (let n = (of_char c :: nat) in (48 \<le> n \<and> n \<le> 57) \<or> n = 178 \<or> n = 179 \<or> n = 185)"

definition isdigit :: "string \<Rightarrow> bool" where
  \<comment> \<open>\<^verbatim>\<open>str.isdigit()\<close>: at least one character, and all of them digits.\<close>
  "isdigit s = (s \<noteq> [] \<and> list_all isdigit_char s)"

datatype py_error = IndexError | ValueError | KeyError | SheetError

text \<open>
  \<^verbatim>\<open>int(s)\<close> in base 10: surrounding whitespace is dropped, one sign is allowed, then
  decimal digits follow, with single underscores allowed between two digits. Anything
  else raises \<^verbatim>\<open>ValueError\<close>. The flag of \<open>int_digits\<close> says that the previous
  character was a digit. A string with more digits than the interpreter's limit for
  conversions between \<^verbatim>\<open>str\<close> and \<^verbatim>\<open>int\<close> raises \<^verbatim>\<open>ValueError\<close> too; underscores do
  not count, leading zeros do. The limit is the interpreter's default, 4300 digits.
\<close>

definition int_max_str_digits :: nat where
  "int_max_str_digits = 4300"

fun int_digits :: "bool \<Rightarrow> nat \<Rightarrow> string \<Rightarrow> nat option" where
  "int_digits prev acc [] = (if prev then Some acc else None)"
| "int_digits prev acc (c # cs) =
     (if is_decimal c then int_digits True (10 * acc + digit_val c) cs
      else if c = CHR ''_'' \<and> prev then int_digits False acc cs
      else None)"

definition py_int :: "string \<Rightarrow> py_error + int" where
  "py_int s =
     (let t = strip s;
          neg = (t \<noteq> [] \<and> hd t = CHR ''-'');
          body = (if t \<noteq> [] \<and> (hd t = CHR ''-'' \<or> hd t = CHR ''+'') then tl t else t)
      in case int_digits False 0 body of
           None \<Rightarrow> Inl ValueError
         | Some n \<Rightarrow>
             if length (filter is_decimal body) > int_max_str_digits then Inl ValueError
             else Inr (if neg then - int n else int n))"

text \<open>
  \<^verbatim>\<open>str(n)\<close> of an integer: its decimal digits, after a minus sign when negative. An
  integer with more digits than the same limit raises \<^verbatim>\<open>ValueError\<close>.
\<close>

fun str_nat :: "nat \<Rightarrow> string" where
  "str_nat n =
     (if n < 10 then [''0123456789'' ! n]
      else str_nat (n div 10) @ [''0123456789'' ! (n mod 10)])"

declare str_nat.simps [simp del]

definition py_str :: "int \<Rightarrow> py_error + string" where
  "py_str i =
     (let digits = str_nat (nat \<bar>i\<bar>)
      in if length digits > int_max_str_digits then Inl ValueError
         else Inr (if i < 0 then CHR ''-'' # digits else digits))"

definition py_index :: "'a list \<Rightarrow> nat \<Rightarrow> py_error + 'a" where
  \<comment> \<open>\<^verbatim>\<open>xs[i]\<close> with a non-negative index: \<^verbatim>\<open>IndexError\<close> out of range.\<close>
  "py_index xs i = (if i < length xs then Inr (xs ! i) else Inl IndexError)"

section \<open>Cleaning the grid\<close>

text \<open>
  \<^verbatim>\<open>clean_spreadsheet_data\<close>: the inner loop over the cells of a row and the outer loop
  over the rows both append one result per element, in order. The cells are already
  \<^verbatim>\<open>str\<close> values (the sheet is read with \<^verbatim>\<open>get_all_values\<close>), so \<^verbatim>\<open>str(cell)\<close>
  is the cell.
\<close>

definition clean_cell :: "string \<Rightarrow> string" where
  "clean_cell cell =
     (let cell_str = strip cell
      in if lower cell_str \<in> set [''chiuso'', ''closed'', ''''] then ''Chiuso'' else cell_str)"

fun clean_row :: "string list \<Rightarrow> string list \<Rightarrow> string list" where
  "clean_row cleaned_row [] = cleaned_row"
| "clean_row cleaned_row (cell # cells) = clean_row (cleaned_row @ [clean_cell cell]) cells"

fun clean_rows :: "string list list \<Rightarrow> string list list \<Rightarrow> string list list" where
  "clean_rows cleaned [] = cleaned"
| "clean_rows cleaned (row # rows) = clean_rows (cleaned @ [clean_row [] row]) rows"

definition clean_spreadsheet_data :: "string list list \<Rightarrow> string list list" where
  "clean_spreadsheet_data data = clean_rows [] data"

section \<open>Grouping the rows\<close>

text \<open>
  \<^verbatim>\<open>group_calendar_data\<close> appends to \<^verbatim>\<open>self.calendar_groups\<close>; the model takes that list
  and returns it updated. \<^verbatim>\<open>row[0]\<close> raises \<^verbatim>\<open>IndexError\<close> on an empty row; the groups
  appended before the exception stay in the list, so the error carries them.
\<close>

type_synonym calendar_groups = "(string \<times> string list list) list"

fun group_loop ::
  "calendar_groups \<Rightarrow> string \<Rightarrow> string list list \<Rightarrow> string list list \<Rightarrow>
   (py_error \<times> calendar_groups) + (calendar_groups \<times> string \<times> string list list)" where
  "group_loop groups current_name current_group [] = Inr (groups, current_name, current_group)"
| "group_loop groups current_name current_group (row # rows) =
     (case py_index row 0 of
        Inl e \<Rightarrow> Inl (e, groups)
      | Inr cell \<Rightarrow>
          if strip cell = [] \<or> strip cell = ''Chiuso'' then
            (if current_name \<noteq> [] then group_loop groups current_name (current_group @ [row]) rows
             else group_loop groups current_name current_group rows)
          else
            group_loop (if current_name \<noteq> [] then groups @ [(current_name, current_group)] else groups)
              cell [row] rows)"

definition group_calendar_data ::
  "calendar_groups \<Rightarrow> string list list \<Rightarrow> py_error option \<times> calendar_groups" where
  "group_calendar_data groups data =
     (case group_loop groups [] [] data of
        Inl (e, groups') \<Rightarrow> (Some e, groups')
      | Inr (groups', current_name, current_group) \<Rightarrow>
          (None, if current_name \<noteq> [] then groups' @ [(current_name, current_group)] else groups'))"

section \<open>Reading the sheet\<close>

text \<open>
  \<^verbatim>\<open>read_spreadsheet\<close>: the sheet client is outside the program, so what it returns (the
  rows, or an exception) is an argument. Every exception is caught inside the function,
  so the retry decorator never sees one and the body runs once. The state is the part of
  the object the function changes, and the log records it writes.
\<close>

datatype log_record = LogWarning string | LogError string py_error

record manager =
  calendar_groups :: calendar_groups
  logged :: "log_record list"

definition read_spreadsheet :: "manager \<Rightarrow> py_error + string list list \<Rightarrow> bool \<times> manager" where
  "read_spreadsheet self fetched =
     (case fetched of
        Inl e \<Rightarrow> (False, self\<lparr>logged := logged self @ [LogError ''Error reading spreadsheet: '' e]\<rparr>)
      | Inr data \<Rightarrow>
          if data = [] \<or> length data < 2 then
            (False, self\<lparr>logged := logged self @ [LogWarning ''No data found in spreadsheet'']\<rparr>)
          else
            (let cleaned_data = clean_spreadsheet_data (drop 2 data)
             in case group_calendar_data (calendar_groups self) cleaned_data of
                  (None, groups) \<Rightarrow> (True, self\<lparr>calendar_groups := groups\<rparr>)
                | (Some e, groups) \<Rightarrow>
                    (False, self\<lparr>calendar_groups := groups,
                       logged := logged self @ [LogError ''Error reading spreadsheet: '' e]\<rparr>)))"

section \<open>Times\<close>

text \<open>
  \<^verbatim>\<open>datetime.strptime(s, '%H:%M')\<close> matches the regular expression
  \<^verbatim>\<open>(2[0-3]|[0-1]\d|\d):([0-5]\d|\d)\<close> at the start of \<open>s\<close> and raises \<^verbatim>\<open>ValueError\<close>
  when there is no match or when the match does not end where \<open>s\<close> ends. \<open>match_H\<close>
  and \<open>match_M\<close> list the ways the hour and the minute can match, in the order the
  matcher tries them, each with the rest of the string; the first complete match is the
  one the matcher returns.
\<close>

definition match_H :: "string \<Rightarrow> (nat \<times> string) list" where
  "match_H s =
     (case s of
        c1 # c2 # r \<Rightarrow>
          (if c1 = CHR ''2'' \<and> c2 \<in> set ''0123'' then [(20 + digit_val c2, r)] else []) @
          (if c1 \<in> set ''01'' \<and> is_decimal c2 then [(10 * digit_val c1 + digit_val c2, r)] else [])
      | _ \<Rightarrow> []) @
     (case s of c1 # r \<Rightarrow> if is_decimal c1 then [(digit_val c1, r)] else [] | [] \<Rightarrow> [])"

definition match_M :: "string \<Rightarrow> (nat \<times> string) list" where
  "match_M s =
     (case s of
        c1 # c2 # r \<Rightarrow>
          (if c1 \<in> set ''012345'' \<and> is_decimal c2 then [(10 * digit_val c1 + digit_val c2, r)] else [])
      | _ \<Rightarrow> []) @
     (case s of c1 # r \<Rightarrow> if is_decimal c1 then [(digit_val c1, r)] else [] | [] \<Rightarrow> [])"

definition match_HM :: "string \<Rightarrow> (nat \<times> nat \<times> string) list" where
  "match_HM s =
     concat (map (\<lambda>(h, r).
        case r of
          c # r' \<Rightarrow> if c = CHR '':'' then map (\<lambda>(m, r''). (h, m, r'')) (match_M r') else []
        | [] \<Rightarrow> []) (match_H s))"

definition strptime_HM :: "string \<Rightarrow> py_error + (nat \<times> nat)" where
  "strptime_HM data_string =
     (case match_HM data_string of
        [] \<Rightarrow> Inl ValueError
      | (h, m, rest) # _ \<Rightarrow> if rest = [] then Inr (h, m) else Inl ValueError)"

definition is_valid_time :: "string \<Rightarrow> bool" where
  "is_valid_time time_str =
     (if lower time_str = ''chiuso'' then True
      else case strptime_HM time_str of Inr _ \<Rightarrow> True | Inl _ \<Rightarrow> False)"

section \<open>Consolidating the opening hours\<close>

text \<open>
  The dictionary \<^verbatim>\<open>time_slots\<close> keeps its keys in insertion order, and
  \<^verbatim>\<open>create_opening_hours\<close> walks it in that order, so it is an association list: a new key
  goes to the end, a stored list is replaced in place.
\<close>

type_synonym slot_key = "string \<times> string \<times> string \<times> string"
type_synonym time_slots = "(slot_key \<times> int list) list"

definition days_mapping :: "(int \<times> nat) list" where
  "days_mapping = [(1, 2), (2, 5), (3, 8), (4, 11), (5, 14), (6, 17)]"

definition add_day :: "time_slots \<Rightarrow> slot_key \<Rightarrow> int \<Rightarrow> py_error + time_slots" where
  \<comment> \<open>The last four lines of the loop body: create the entry, then append the day if new.\<close>
  "add_day time_slots slot_key day_num =
     (let time_slots1 =
            (if map_of time_slots slot_key = None then AList.update slot_key [] time_slots
             else time_slots)
      in case map_of time_slots1 slot_key of
           None \<Rightarrow> Inl KeyError
         | Some days \<Rightarrow>
             if day_num \<notin> set days then Inr (AList.update slot_key (days @ [day_num]) time_slots1)
             else Inr time_slots1)"

definition meeting_min_of :: "string \<Rightarrow> py_error + int" where
  \<comment> \<open>The \<^verbatim>\<open>try\<close> block: \<^verbatim>\<open>ValueError\<close> from \<^verbatim>\<open>int\<close> is caught and gives 30.\<close>
  "meeting_min_of meeting_minutes =
     (if isdigit meeting_minutes then
        (case py_int meeting_minutes of
           Inr n \<Rightarrow> Inr n
         | Inl e \<Rightarrow> if e = ValueError then Inr 30 else Inl e)
      else Inr 30)"

definition process_day :: "string list \<Rightarrow> time_slots \<Rightarrow> int \<times> nat \<Rightarrow> py_error + time_slots" where
  "process_day row time_slots day =
     (case day of (day_num, day_col) \<Rightarrow>
        if day_col + 2 \<ge> length row then Inr time_slots
        else
          case py_index row day_col of Inl e \<Rightarrow> Inl e | Inr cell0 \<Rightarrow>
          case py_index row (day_col + 1) of Inl e \<Rightarrow> Inl e | Inr cell1 \<Rightarrow>
          case py_index row (day_col + 2) of Inl e \<Rightarrow> Inl e | Inr cell2 \<Rightarrow>
            (let begin_hour = strip cell0;
                 end_hour = strip cell1;
                 meeting_minutes = strip cell2
             in if begin_hour = ''Chiuso'' \<or> end_hour = ''Chiuso'' \<or> begin_hour = [] \<or> end_hour = []
                then Inr time_slots
                else if \<not> (is_valid_time begin_hour \<and> is_valid_time end_hour) then Inr time_slots
                else
                  case meeting_min_of meeting_minutes of Inl e \<Rightarrow> Inl e | Inr meeting_min \<Rightarrow>
                  case py_str meeting_min of Inl e \<Rightarrow> Inl e | Inr meeting_str \<Rightarrow>
                    add_day time_slots (begin_hour, end_hour, meeting_str, ''no'') day_num))"

fun for_days :: "string list \<Rightarrow> time_slots \<Rightarrow> (int \<times> nat) list \<Rightarrow> py_error + time_slots" where
  "for_days row time_slots [] = Inr time_slots"
| "for_days row time_slots (day # days) =
     (case process_day row time_slots day of
        Inl e \<Rightarrow> Inl e
      | Inr time_slots' \<Rightarrow> for_days row time_slots' days)"

fun for_rows :: "time_slots \<Rightarrow> string list list \<Rightarrow> py_error + time_slots" where
  "for_rows time_slots [] = Inr time_slots"
| "for_rows time_slots (row # rows) =
     (case for_days row time_slots days_mapping of
        Inl e \<Rightarrow> Inl e
      | Inr time_slots' \<Rightarrow> for_rows time_slots' rows)"

definition process_opening_hours :: "string list list \<Rightarrow> py_error + time_slots" where
  "process_opening_hours rows = for_rows [] rows"

section \<open>Building the opening-hours records\<close>

text \<open>
  \<^verbatim>\<open>create_opening_hours\<close> builds one record per entry of the table and posts it. The HTTP
  call is outside the program: \<open>post\<close> says whether it went through. An exception in
  the loop body (from \<^verbatim>\<open>int\<close>, or from the call) is caught there, clears \<^verbatim>\<open>success\<close>
  and the loop goes on. The result is the list of records sent, in order, and
  \<^verbatim>\<open>success\<close>. The two dates are fields set when the object is made.
\<close>

record opening_hours =
  name :: string
  start_date :: string
  end_date :: string
  days_of_week :: "int list"
  begin_hour :: string
  end_hour :: string
  is_moderated :: bool
  meeting_minutes :: int
  interval_minutes :: int
  meeting_queue :: int

definition build_opening_hours ::
  "string \<Rightarrow> string \<Rightarrow> slot_key \<times> int list \<Rightarrow> py_error + opening_hours" where
  "build_opening_hours sd ed slot =
     (case slot of ((bh, eh, mm, im), days) \<Rightarrow>
        case py_int mm of
          Inl e \<Rightarrow> Inl e
        | Inr n \<Rightarrow>
            Inr \<lparr>name = ''Orario '' @ bh @ ''-'' @ eh,
                 start_date = sd,
                 end_date = ed,
                 days_of_week = sort days,
                 begin_hour = bh,
                 end_hour = eh,
                 is_moderated = (lower im = ''si''),
                 meeting_minutes = n,
                 interval_minutes = 0,
                 meeting_queue = 1\<rparr>)"

fun create_loop ::
  "(opening_hours \<Rightarrow> bool) \<Rightarrow> string \<Rightarrow> string \<Rightarrow> opening_hours list \<Rightarrow> bool \<Rightarrow> time_slots \<Rightarrow>
   opening_hours list \<times> bool" where
  "create_loop post sd ed sent success [] = (sent, success)"
| "create_loop post sd ed sent success (slot # slots) =
     (case build_opening_hours sd ed slot of
        Inl e \<Rightarrow> create_loop post sd ed sent False slots
      | Inr oh \<Rightarrow> create_loop post sd ed (sent @ [oh]) (if post oh then success else False) slots)"

definition create_opening_hours ::
  "(opening_hours \<Rightarrow> bool) \<Rightarrow> string \<Rightarrow> string \<Rightarrow> time_slots \<Rightarrow> opening_hours list \<times> bool" where
  "create_opening_hours post sd ed time_slots = create_loop post sd ed [] True time_slots"

section \<open>The specification's notions\<close>



text \<open>
  A non-negative integer literal: one or more decimal digits; its value. The third
  component of the key for a trimmed duration cell: the decimal form of the value of a
  literal within the digit limit, and \<^verbatim>\<open>30\<close> for anything else.
\<close>

definition is_nat_literal :: "string \<Rightarrow> bool" where
  "is_nat_literal s = (s \<noteq> [] \<and> list_all is_decimal s)"

definition literal_value :: "string \<Rightarrow> nat" where
  "literal_value s = foldl (\<lambda>a c. 10 * a + digit_val c) 0 s"

definition meeting_key :: "string \<Rightarrow> string" where
  "meeting_key m =
     (if is_nat_literal m \<and> length m \<le> int_max_str_digits then str_nat (literal_value m)
      else ''30'')"

text \<open>The day is listed under the key in the table.\<close>

definition has_day :: "time_slots \<Rightarrow> slot_key \<Rightarrow> int \<Rightarrow> bool" where
  "has_day time_slots slot_key day_num =
     (case map_of time_slots slot_key of None \<Rightarrow> False | Some days \<Rightarrow> day_num \<in> set days)"

text \<open>
  The guard of the loop body, for one day of one row: enough cells, neither time closed or
  empty, both times accepted. The key such a day is stored under.
\<close>

definition day_open :: "string list \<Rightarrow> nat \<Rightarrow> bool" where
  "day_open row day_col =
     (day_col + 2 < length row \<and>
      strip (row ! day_col) \<noteq> ''Chiuso'' \<and> strip (row ! (day_col + 1)) \<noteq> ''Chiuso'' \<and>
      strip (row ! day_col) \<noteq> [] \<and> strip (row ! (day_col + 1)) \<noteq> [] \<and>
      is_valid_time (strip (row ! day_col)) \<and> is_valid_time (strip (row ! (day_col + 1))))"

definition day_key :: "string list \<Rightarrow> nat \<Rightarrow> slot_key" where
  "day_key row day_col =
     (strip (row ! day_col), strip (row ! (day_col + 1)),
      meeting_key (strip (row ! (day_col + 2))), ''no'')"


section \<open>Facts about strings\<close>

lemma strip_ends:
  "strip s = [] \<or> (\<not> isspace (hd (strip s)) \<and> \<not> isspace (last (strip s)))"
proof (cases "strip s = []")
  case True
  then show ?thesis by simp
next
  case False
  define u where "u = dropWhile isspace s"
  define d where "d = dropWhile isspace (rev u)"
  have t: "strip s = rev d" by (simp add: strip_def u_def d_def)
  with False have dne: "d \<noteq> []" by simp
  then have "\<not> isspace (hd d)" unfolding d_def by (rule hd_dropWhile)
  then have l: "\<not> isspace (last (strip s))" using dne by (simp add: t last_rev)
  have "rev u = takeWhile isspace (rev u) @ d" by (simp add: d_def)
  then have "u = rev d @ rev (takeWhile isspace (rev u))"
    by (metis rev_append rev_rev_ident)
  then have hu: "hd u = hd (rev d)" and une: "u \<noteq> []" using dne by (metis hd_append2 rev_is_Nil_conv, auto)
  from une have "\<not> isspace (hd u)" unfolding u_def by (rule hd_dropWhile)
  then show ?thesis using l hu t by simp
qed

lemma strip_id:
  assumes "s = [] \<or> (\<not> isspace (hd s) \<and> \<not> isspace (last s))"
  shows "strip s = s"
proof (cases s)
  case Nil
  then show ?thesis by (simp add: strip_def)
next
  case (Cons c cs)
  with assms have h: "\<not> isspace c" and l: "\<not> isspace (last s)" by auto
  from h Cons have 1: "dropWhile isspace s = s" by simp
  from Cons have "s \<noteq> []" by simp
  with l have "dropWhile isspace (rev s) = rev s"
    by (cases s rule: rev_cases) auto
  with 1 show ?thesis by (simp add: strip_def)
qed

lemma strip_strip: "strip (strip s) = strip s"
  by (rule strip_id) (rule strip_ends)

lemma strip_Chiuso: "strip ''Chiuso'' = ''Chiuso''"
  by (simp add: strip_def isspace_def)

lemma lower_Chiuso: "lower ''Chiuso'' = ''chiuso''"
  by code_simp

lemma clean_cell_Chiuso: "clean_cell ''Chiuso'' = ''Chiuso''"
  by (simp add: clean_cell_def strip_Chiuso lower_Chiuso)

lemma clean_cell_idem: "clean_cell (clean_cell c) = clean_cell c"
proof (cases "lower (strip c) \<in> set [''chiuso'', ''closed'', '''']")
  case True
  then have "clean_cell c = ''Chiuso''" by (simp add: clean_cell_def)
  then show ?thesis by (simp add: clean_cell_Chiuso)
next
  case False
  then have "clean_cell c = strip c" by (simp add: clean_cell_def)
  moreover have "clean_cell (strip c) = strip c" using False
    by (simp add: clean_cell_def strip_strip)
  ultimately show ?thesis by simp
qed

lemma clean_row_map: "clean_row acc row = acc @ map clean_cell row"
  by (induction row arbitrary: acc) auto

lemma clean_rows_map: "clean_rows acc rows = acc @ map (\<lambda>row. map clean_cell row) rows"
  by (induction rows arbitrary: acc) (auto simp: clean_row_map)

lemma clean_spreadsheet_data_map:
  "clean_spreadsheet_data data = map (\<lambda>row. map clean_cell row) data"
  by (simp add: clean_spreadsheet_data_def clean_rows_map)

section \<open>Properties of cleaning\<close>

text \<open>
  C8: \<^verbatim>\<open>clean_spreadsheet_data\<close> is idempotent: cleaning a grid that has been cleaned
  gives the same grid.
\<close>

theorem clean_spreadsheet_data_idempotent:
  "clean_spreadsheet_data (clean_spreadsheet_data data) = clean_spreadsheet_data data"
  by (simp add: clean_spreadsheet_data_map clean_cell_idem)

text \<open>
  C10: \<^verbatim>\<open>clean_spreadsheet_data\<close> keeps the shape of the grid: the output has as many
  rows as the input, every output row has as many cells as the input row at the same
  position, and every output cell is the input cell with its surrounding whitespace
  removed, except that a cell whose trimmed form is, in any letter case, \<^verbatim>\<open>chiuso\<close>,
  \<^verbatim>\<open>closed\<close> or empty becomes exactly \<^verbatim>\<open>Chiuso\<close>.
\<close>

theorem clean_spreadsheet_data_shape:
  "length (clean_spreadsheet_data data) = length data \<and>
   (\<forall>i < length data.
      length (clean_spreadsheet_data data ! i) = length (data ! i) \<and>
      (\<forall>j < length (data ! i).
         clean_spreadsheet_data data ! i ! j =
           (if lower (strip (data ! i ! j)) = ''chiuso'' \<or> lower (strip (data ! i ! j)) = ''closed''
               \<or> strip (data ! i ! j) = []
            then ''Chiuso'' else strip (data ! i ! j))))"
  by (simp add: clean_spreadsheet_data_map clean_cell_def lower_def)

theorem clean_spreadsheet_data_shape_witness:
  "length (clean_spreadsheet_data [['' CLOSED '', ''9:00 ''], [[]]]) = 2 \<and>
   length (clean_spreadsheet_data [['' CLOSED '', ''9:00 ''], [[]]] ! 0) = 2 \<and>
   clean_spreadsheet_data [['' CLOSED '', ''9:00 ''], [[]]] ! 0 ! 0 = ''Chiuso'' \<and>
   clean_spreadsheet_data [['' CLOSED '', ''9:00 ''], [[]]] ! 0 ! 1 = ''9:00'' \<and>
   clean_spreadsheet_data [['' CLOSED '', ''9:00 ''], [[]]] ! 1 ! 0 = ''Chiuso''"
proof -
  let ?d = "[['' CLOSED '', ''9:00 ''], [[]]]"
  have s1: "strip '' CLOSED '' = ''CLOSED''" by (simp add: strip_def isspace_def)
  have s2: "strip ''9:00 '' = ''9:00''" by (simp add: strip_def isspace_def)
  have s3: "strip [] = []" by (simp add: strip_def)
  have l1: "lower ''CLOSED'' = ''closed''" by code_simp
  have l2: "lower ''9:00'' = ''9:00''" by code_simp
  have i0: "(0::nat) < length ?d" and i1: "(1::nat) < length ?d" by simp_all
  note t = clean_spreadsheet_data_shape [of ?d]
  from t have len: "length (clean_spreadsheet_data ?d) = 2" by simp
  from t i0 have r0: "length (clean_spreadsheet_data ?d ! 0) = length (?d ! 0)"
    by blast
  from t i0 have c00: "clean_spreadsheet_data ?d ! 0 ! 0 = ''Chiuso''"
    by (simp add: s1 l1)
  from t i0 have c01: "clean_spreadsheet_data ?d ! 0 ! 1 = ''9:00''"
    by (simp add: s2 l2)
  from t i1 have c10: "clean_spreadsheet_data ?d ! 1 ! 0 = ''Chiuso''"
    by (simp add: s3)
  from len r0 c00 c01 c10 show ?thesis by simp
qed

section \<open>Properties of grouping\<close>

lemma strip_names: "strip ''A'' = ''A''" "strip ''B'' = ''B''" "strip [] = []"
  by (simp_all add: strip_def isspace_def)

text \<open>
  C5: for four rows whose name columns are \<^verbatim>\<open>A\<close>, the empty string, \<^verbatim>\<open>Chiuso\<close> and
  \<^verbatim>\<open>B\<close>, in that order and whatever their other cells, \<^verbatim>\<open>group_calendar_data\<close>
  produces exactly two groups, in order: \<^verbatim>\<open>A\<close> with the first three rows (its own first
  row among them) and \<^verbatim>\<open>B\<close> with the last row only.
\<close>

theorem group_calendar_data_example:
  "group_calendar_data [] [''A'' # t1, [] # t2, ''Chiuso'' # t3, ''B'' # t4] =
     (None, [(''A'', [''A'' # t1, [] # t2, ''Chiuso'' # t3]), (''B'', [''B'' # t4])])"
  by (simp add: group_calendar_data_def py_index_def strip_names strip_Chiuso)

lemma group_loop_nonempty:
  "\<forall>row \<in> set data. row \<noteq> [] \<Longrightarrow> \<exists>r. group_loop gs n g data = Inr r"
proof (induction data arbitrary: gs n g)
  case Nil
  then show ?case by simp
next
  case (Cons row rows)
  then obtain c cs where "row = c # cs" by (cases row) auto
  with Cons show ?case by (simp add: py_index_def)
qed

lemma group_loop_empty_row:
  "[] \<in> set data \<Longrightarrow> \<exists>gs'. group_loop gs n g data = Inl (IndexError, gs')"
proof (induction data arbitrary: gs n g)
  case Nil
  then show ?case by simp
next
  case (Cons row rows)
  show ?case
  proof (cases row)
    case Nil
    then show ?thesis by (simp add: py_index_def)
  next
    case (Cons c cs)
    with Cons.prems have "[] \<in> set rows" by auto
    with Cons.IH Cons show ?thesis by (simp add: py_index_def)
  qed
qed

text \<open>
  C9: \<^verbatim>\<open>group_calendar_data\<close> reads column 0 of every row. When every row has at least
  one cell it returns without raising; when some row has no cell it raises
  \<^verbatim>\<open>IndexError\<close> instead of returning.
\<close>

theorem group_calendar_data_total_iff:
  "((\<forall>row \<in> set data. row \<noteq> []) \<longrightarrow> (\<exists>gs. group_calendar_data groups data = (None, gs))) \<and>
   ((\<exists>row \<in> set data. row = []) \<longrightarrow> (\<exists>gs. group_calendar_data groups data = (Some IndexError, gs)))"
proof (intro conjI impI)
  assume "\<forall>row \<in> set data. row \<noteq> []"
  then obtain r where "group_loop groups [] [] data = Inr r"
    using group_loop_nonempty by blast
  then show "\<exists>gs. group_calendar_data groups data = (None, gs)"
    by (cases r) (simp add: group_calendar_data_def)
next
  assume "\<exists>row \<in> set data. row = []"
  then have "[] \<in> set data" by auto
  then obtain gs' where "group_loop groups [] [] data = Inl (IndexError, gs')"
    using group_loop_empty_row by blast
  then show "\<exists>gs. group_calendar_data groups data = (Some IndexError, gs)"
    by (simp add: group_calendar_data_def)
qed

theorem group_calendar_data_total_iff_witness:
  "[] \<notin> set [[''A''], [''B'']] \<and>
   fst (group_calendar_data [] [[''A''], [''B'']]) = None \<and>
   [] \<in> set [[''A''], ([]::string list)] \<and>
   fst (group_calendar_data [] [[''A''], ([]::string list)]) = Some IndexError"
proof -
  have h1: "\<forall>row \<in> set [[''A''], [''B'']]. row \<noteq> []" by simp
  have h2: "\<exists>row \<in> set [[''A''], ([]::string list)]. row = []" by simp
  from group_calendar_data_total_iff [of "[[''A''], [''B'']]" "[]"] h1
  have a: "fst (group_calendar_data [] [[''A''], [''B'']]) = None" by auto
  from group_calendar_data_total_iff [of "[[''A''], []]" "[]"] h2
  have b: "fst (group_calendar_data [] [[''A''], ([]::string list)]) = Some IndexError" by auto
  from a b show ?thesis by simp
qed

section \<open>Facts about digits and integer conversion\<close>

lemma dec_chars:
  "char_of (48::nat) = CHR ''0''" "char_of (49::nat) = CHR ''1''" "char_of (50::nat) = CHR ''2''"
  "char_of (51::nat) = CHR ''3''" "char_of (52::nat) = CHR ''4''" "char_of (53::nat) = CHR ''5''"
  "char_of (54::nat) = CHR ''6''" "char_of (55::nat) = CHR ''7''" "char_of (56::nat) = CHR ''8''"
  "char_of (57::nat) = CHR ''9''"
  by code_simp+

lemma is_decimal_iff: "is_decimal c \<longleftrightarrow> c \<in> set ''0123456789''"
proof
  assume "is_decimal c"
  then have "48 \<le> (of_char c :: nat)" "(of_char c :: nat) \<le> 57"
    by (simp_all add: is_decimal_def Let_def)
  then have "(of_char c :: nat) = 48 \<or> (of_char c :: nat) = 49 \<or> (of_char c :: nat) = 50 \<or>
      (of_char c :: nat) = 51 \<or> (of_char c :: nat) = 52 \<or> (of_char c :: nat) = 53 \<or>
      (of_char c :: nat) = 54 \<or> (of_char c :: nat) = 55 \<or> (of_char c :: nat) = 56 \<or>
      (of_char c :: nat) = 57" by arith
  then have "char_of (of_char c :: nat) \<in> set ''0123456789''"
    using dec_chars by (elim disjE) simp_all
  then show "c \<in> set ''0123456789''" by simp
next
  assume "c \<in> set ''0123456789''"
  then show "is_decimal c" by (auto simp: is_decimal_def)
qed

lemma isdigit_char_not_space: "isdigit_char c \<Longrightarrow> \<not> isspace c"
  by (auto simp: isdigit_char_def isspace_def Let_def)

lemma is_decimal_isdigit: "is_decimal c \<Longrightarrow> isdigit_char c"
  by (auto simp: isdigit_char_def is_decimal_def Let_def)

lemma isdigit_char_not_sign: "isdigit_char c \<Longrightarrow> c \<noteq> CHR ''-'' \<and> c \<noteq> CHR ''+'' \<and> c \<noteq> CHR ''_''"
  by (auto simp: isdigit_char_def)


lemma dv_facts:
  assumes "is_decimal c"
  shows "digit_val c < 10"
    and "(c \<in> set ''0123'') = (digit_val c < 4)"
    and "(c \<in> set ''01'') = (digit_val c < 2)"
    and "(c \<in> set ''012345'') = (digit_val c < 6)"
    and "(c = CHR ''2'') = (digit_val c = 2)"
  using assms unfolding is_decimal_iff by (auto simp: digit_val_def)

lemma int_digits_all:
  "list_all is_decimal s \<Longrightarrow> s \<noteq> [] \<or> prev \<Longrightarrow>
   int_digits prev acc s = Some (foldl (\<lambda>a c. 10 * a + digit_val c) acc s)"
  by (induction s arbitrary: prev acc) auto

lemma int_digits_bad:
  "list_all isdigit_char s \<Longrightarrow> \<not> list_all is_decimal s \<Longrightarrow> int_digits prev acc s = None"
  by (induction s arbitrary: prev acc) (auto dest: isdigit_char_not_sign)

lemma isdigit_strip: "isdigit s \<Longrightarrow> strip s = s"
proof (rule strip_id)
  assume a: "isdigit s"
  then have ne: "s \<noteq> []" and all: "\<forall>c \<in> set s. isdigit_char c"
    by (auto simp: isdigit_def list_all_iff)
  from ne have "hd s \<in> set s" "last s \<in> set s" by auto
  with all have "\<not> isspace (hd s)" "\<not> isspace (last s)"
    using isdigit_char_not_space by blast+
  then show "s = [] \<or> \<not> isspace (hd s) \<and> \<not> isspace (last s)" by simp
qed

lemma filter_decimal_all: "list_all is_decimal s \<Longrightarrow> filter is_decimal s = s"
  by (induction s) auto

lemma foldl_digits_bound:
  "list_all is_decimal s \<Longrightarrow>
   foldl (\<lambda>a c. 10 * a + digit_val c) acc s < (acc + 1) * 10 ^ length s"
proof (induction s arbitrary: acc)
  case Nil
  then show ?case by simp
next
  case (Cons c s)
  then have "digit_val c < 10" by (simp add: dv_facts(1))
  then have "10 * acc + digit_val c + 1 \<le> (acc + 1) * 10" by simp
  then have le: "(10 * acc + digit_val c + 1) * 10 ^ length s \<le> (acc + 1) * 10 * 10 ^ length s"
    by (rule mult_le_mono1)
  from Cons have lt:
    "foldl (\<lambda>a c. 10 * a + digit_val c) (10 * acc + digit_val c) s
       < (10 * acc + digit_val c + 1) * 10 ^ length s"
    by simp
  from lt le have
    "foldl (\<lambda>a c. 10 * a + digit_val c) (10 * acc + digit_val c) s
       < (acc + 1) * 10 * 10 ^ length s"
    by (rule less_le_trans)
  then show ?case by (simp add: algebra_simps)
qed

lemma literal_value_bound: "list_all is_decimal s \<Longrightarrow> literal_value s < 10 ^ length s"
  using foldl_digits_bound [of s 0] by (simp add: literal_value_def)

lemma length_str_nat: "n < 10 ^ k \<Longrightarrow> 0 < k \<Longrightarrow> length (str_nat n) \<le> k"
proof (induction n arbitrary: k rule: str_nat.induct)
  case (1 n)
  show ?case
  proof (cases "n < 10")
    case True
    with "1.prems" show ?thesis by (simp add: str_nat.simps [of n])
  next
    case False
    from "1.prems"(2) obtain j where k: "k = Suc j" by (cases k) auto
    with False "1.prems"(1) have j: "0 < j" by (cases j) auto
    from "1.prems"(1) k have "n div 10 < 10 ^ j"
      by (simp add: less_mult_imp_div_less mult.commute)
    with "1.IH" [OF False _ j] have "length (str_nat (n div 10)) \<le> j" by simp
    with False k show ?thesis by (simp add: str_nat.simps [of n])
  qed
qed

lemma py_int_literal:
  assumes "is_nat_literal m"
  shows "py_int m =
           (if length m > int_max_str_digits then Inl ValueError
            else Inr (int (literal_value m)))"
proof -
  from assms have ne: "m \<noteq> []" and all: "list_all is_decimal m"
    by (simp_all add: is_nat_literal_def)
  from all have "list_all isdigit_char m"
    by (auto simp: list_all_iff dest: is_decimal_isdigit)
  with ne have "isdigit m" by (simp add: isdigit_def)
  then have s: "strip m = m" by (rule isdigit_strip)
  from ne all have "is_decimal (hd m)" by (cases m) auto
  then have hd: "hd m \<noteq> CHR ''-''" "hd m \<noteq> CHR ''+''" by (auto simp: is_decimal_def)
  from ne all have "int_digits False 0 m = Some (literal_value m)"
    by (simp add: int_digits_all literal_value_def)
  with s hd ne all show ?thesis
    by (simp add: py_int_def filter_decimal_all)
qed

lemma meeting_min_of_eq:
  "meeting_min_of m =
     Inr (if is_nat_literal m \<and> length m \<le> int_max_str_digits then int (literal_value m)
          else 30)"
proof (cases "isdigit m")
  case False
  then have "\<not> is_nat_literal m"
    by (auto simp: isdigit_def is_nat_literal_def list_all_iff dest: is_decimal_isdigit)
  with False show ?thesis by (simp add: meeting_min_of_def)
next
  case True
  show ?thesis
  proof (cases "is_nat_literal m")
    case lit: True
    with True show ?thesis by (simp add: meeting_min_of_def py_int_literal)
  next
    case nolit: False
    from True have s: "strip m = m" by (rule isdigit_strip)
    from True have ne: "m \<noteq> []" and all: "list_all isdigit_char m"
      by (auto simp: isdigit_def)
    from ne all have "isdigit_char (hd m)" by (cases m) auto
    then have hd: "hd m \<noteq> CHR ''-''" "hd m \<noteq> CHR ''+''"
      using isdigit_char_not_sign by blast+
    from nolit ne have "\<not> list_all is_decimal m" by (simp add: is_nat_literal_def)
    with all have "int_digits False 0 m = None" by (rule int_digits_bad)
    with nolit hd s True show ?thesis
      by (simp add: meeting_min_of_def py_int_def)
  qed
qed

lemma py_str_30: "py_str 30 = Inr ''30''"
  by code_simp

lemma py_str_literal:
  assumes "is_nat_literal m" and "length m \<le> int_max_str_digits"
  shows "py_str (int (literal_value m)) = Inr (str_nat (literal_value m))"
proof -
  from assms(1) have ne: "0 < length m" and all: "list_all is_decimal m"
    by (simp_all add: is_nat_literal_def)
  from all have "literal_value m < 10 ^ length m" by (rule literal_value_bound)
  then have "length (str_nat (literal_value m)) \<le> length m" using ne by (rule length_str_nat)
  with assms(2) show ?thesis by (simp add: py_str_def)
qed

lemma meeting_key_eq: "\<exists>n. meeting_min_of m = Inr n \<and> py_str n = Inr (meeting_key m)"
  by (simp add: meeting_min_of_eq meeting_key_def py_str_literal py_str_30)

section \<open>Facts about times\<close>



















section \<open>Facts about the table\<close>

lemma process_day_step:
  "process_day row t (d, c) = (if day_open row c then add_day t (day_key row c) d else Inr t)"
proof -
  obtain n where n: "meeting_min_of (strip (row ! (c + 2))) = Inr n"
    and k: "py_str n = Inr (meeting_key (strip (row ! (c + 2))))"
    using meeting_key_eq by blast
  show ?thesis
  proof (cases "day_open row c")
    case True
    with n k show ?thesis
      by (simp add: process_day_def py_index_def day_open_def day_key_def)
  next
    case False
    then show ?thesis
      by (auto simp: process_day_def py_index_def day_open_def Let_def)
  qed
qed

lemma add_day_total: "\<exists>t'. add_day t k d = Inr t'"
  by (simp add: add_day_def Let_def update_conv' split: option.splits)

lemma process_day_total: "\<exists>t'. process_day row t day = Inr t'"
  using add_day_total by (cases day) (simp add: process_day_step)

lemma for_days_total: "\<exists>t'. for_days row t days = Inr t'"
proof (induction days arbitrary: t)
  case Nil
  then show ?case by simp
next
  case (Cons day days)
  obtain t1 where "process_day row t day = Inr t1" using process_day_total by blast
  with Cons show ?case by simp
qed

lemma for_rows_total: "\<exists>t'. for_rows t rows = Inr t'"
proof (induction rows arbitrary: t)
  case Nil
  then show ?case by simp
next
  case (Cons row rows)
  obtain t1 where "for_days row t days_mapping = Inr t1" using for_days_total by blast
  with Cons show ?case by simp
qed








lemma add_day_has: "add_day t k d = Inr t' \<Longrightarrow> has_day t' k d"
  by (auto simp: add_day_def has_day_def Let_def update_conv' split: option.splits if_splits)

lemma add_day_mono: "add_day t k d = Inr t' \<Longrightarrow> has_day t k0 d0 \<Longrightarrow> has_day t' k0 d0"
  by (cases "k0 = k")
     (auto simp: add_day_def has_day_def Let_def update_conv' split: option.splits if_splits)

lemma process_day_mono: "process_day row t day = Inr t' \<Longrightarrow> has_day t k0 d0 \<Longrightarrow> has_day t' k0 d0"
  by (cases day) (auto simp: process_day_step split: if_splits dest: add_day_mono)

lemma for_days_mono: "for_days row t days = Inr t' \<Longrightarrow> has_day t k0 d0 \<Longrightarrow> has_day t' k0 d0"
proof (induction days arbitrary: t)
  case Nil
  then show ?case by simp
next
  case (Cons day days)
  from Cons.prems(1) obtain t1
    where t1: "process_day row t day = Inr t1" and r: "for_days row t1 days = Inr t'"
    by (auto split: sum.splits)
  from t1 Cons.prems(2) have "has_day t1 k0 d0" by (rule process_day_mono)
  with Cons.IH r show ?case by blast
qed

lemma for_rows_mono: "for_rows t rows = Inr t' \<Longrightarrow> has_day t k0 d0 \<Longrightarrow> has_day t' k0 d0"
proof (induction rows arbitrary: t)
  case Nil
  then show ?case by simp
next
  case (Cons row rows)
  from Cons.prems(1) obtain t1
    where t1: "for_days row t days_mapping = Inr t1" and r: "for_rows t1 rows = Inr t'"
    by (auto split: sum.splits)
  from t1 Cons.prems(2) have "has_day t1 k0 d0" by (rule for_days_mono)
  with Cons.IH r show ?case by blast
qed

lemma process_day_adds:
  assumes "day_open row c" "process_day row t (d, c) = Inr t'"
  shows "has_day t' (day_key row c) d"
  using assms by (simp add: process_day_step add_day_has)

lemma for_days_adds:
  "(d, c) \<in> set days \<Longrightarrow> day_open row c \<Longrightarrow> for_days row t days = Inr t' \<Longrightarrow>
   has_day t' (day_key row c) d"
proof (induction days arbitrary: t)
  case Nil
  then show ?case by simp
next
  case (Cons day days)
  from Cons.prems(3) obtain t1
    where t1: "process_day row t day = Inr t1" and r: "for_days row t1 days = Inr t'"
    by (auto split: sum.splits)
  show ?case
  proof (cases "day = (d, c)")
    case True
    with t1 Cons.prems(2) have "has_day t1 (day_key row c) d" using process_day_adds by blast
    with r show ?thesis by (rule for_days_mono)
  next
    case False
    with Cons.prems(1) have "(d, c) \<in> set days" by simp
    with Cons.IH Cons.prems(2) r show ?thesis by blast
  qed
qed

lemma for_rows_adds:
  "row \<in> set rows \<Longrightarrow> (d, c) \<in> set days_mapping \<Longrightarrow> day_open row c \<Longrightarrow>
   for_rows t rows = Inr t' \<Longrightarrow> has_day t' (day_key row c) d"
proof (induction rows arbitrary: t)
  case Nil
  then show ?case by simp
next
  case (Cons r rows)
  from Cons.prems(4) obtain t1
    where t1: "for_days r t days_mapping = Inr t1" and rest: "for_rows t1 rows = Inr t'"
    by (auto split: sum.splits)
  show ?case
  proof (cases "r = row")
    case True
    with t1 Cons.prems(2,3) have "has_day t1 (day_key row c) d" using for_days_adds by blast
    with rest show ?thesis by (rule for_rows_mono)
  next
    case False
    with Cons.prems(1) have "row \<in> set rows" by simp
    with Cons.IH Cons.prems(2,3) rest show ?thesis by blast
  qed
qed

section \<open>Evaluated examples\<close>

lemma strip_times:
  "strip ''09:00'' = ''09:00''" "strip ''12:00'' = ''12:00''" "strip ''30'' = ''30''"
  by (simp_all add: strip_def isspace_def)

lemma strip_more: "strip ''14:00'' = ''14:00''" "strip ''18:00'' = ''18:00''"
  by (simp_all add: strip_def isspace_def)

lemma strip_examples:
  "strip ''9:30'' = ''9:30''" "strip ''25:61'' = ''25:61''" "strip ''abc'' = ''abc''"
  "strip ''045'' = ''045''"
  by (simp_all add: strip_def isspace_def)

lemma lower_examples:
  "lower ''09:00'' = ''09:00''" "lower ''12:00'' = ''12:00''" "lower ''14:00'' = ''14:00''"
  "lower ''18:00'' = ''18:00''" "lower ''25:61'' = ''25:61''" "lower ''9:30'' = ''9:30''"
  "lower ''no'' = ''no''"
  by (simp_all add: lower_def lower_char_def)



lemma literal_examples:
  "is_nat_literal ''30''" "is_nat_literal ''045''" "\<not> is_nat_literal ''abc''"
  by (simp_all add: is_nat_literal_def is_decimal_def)

lemma meeting_key_examples:
  "meeting_key ''30'' = ''30''" "meeting_key ''045'' = ''45''" "meeting_key ''abc'' = ''30''"
  by code_simp+

lemma py_int_30: "py_int ''30'' = Inr 30"
  by code_simp

lemma valid_examples:
  "is_valid_time ''09:00''" "is_valid_time ''12:00''" "is_valid_time ''14:00''"
  "is_valid_time ''18:00''" "is_valid_time ''chiuso''" "\<not> is_valid_time ''25:61''"
  by code_simp+

lemma strip_chiuso_lower: "strip ''chiuso'' = ''chiuso''"
  by (simp add: strip_def isspace_def)

lemmas eval_day =
  process_opening_hours_def days_mapping_def process_day_step day_open_def day_key_def
  strip_times strip_more strip_examples strip_Chiuso strip_chiuso_lower valid_examples
  meeting_key_examples add_day_def

section \<open>Properties of the consolidation\<close>




text \<open>
  C4: a group of two rows, the first with \<^verbatim>\<open>09:00\<close>, \<^verbatim>\<open>12:00\<close>, \<^verbatim>\<open>30\<close> in the Monday
  columns 2 to 4, the second with the same three cells in the Tuesday columns 5 to 7, and
  every other day closed: the consolidation gives one entry, and building the records
  from it gives exactly one record, with the days 1 and 2 in ascending order, the begin
  hour \<^verbatim>\<open>09:00\<close>, the end hour \<^verbatim>\<open>12:00\<close> and 30 meeting minutes.
\<close>

theorem end_to_end_example:
  "process_opening_hours
     [[n1, x1, ''09:00'', ''12:00'', ''30'', ''Chiuso'', ''Chiuso'', ''Chiuso'', ''Chiuso'',
       ''Chiuso'', ''Chiuso'', ''Chiuso'', ''Chiuso'', ''Chiuso'', ''Chiuso'', ''Chiuso'',
       ''Chiuso'', ''Chiuso'', ''Chiuso'', ''Chiuso''],
      [n2, x2, ''Chiuso'', ''Chiuso'', ''Chiuso'', ''09:00'', ''12:00'', ''30'', ''Chiuso'',
       ''Chiuso'', ''Chiuso'', ''Chiuso'', ''Chiuso'', ''Chiuso'', ''Chiuso'', ''Chiuso'',
       ''Chiuso'', ''Chiuso'', ''Chiuso'', ''Chiuso'']]
     = Inr [((''09:00'', ''12:00'', ''30'', ''no''), [1, 2])] \<and>
   fst (create_opening_hours post sd ed [((''09:00'', ''12:00'', ''30'', ''no''), [1, 2])]) =
     [\<lparr>name = ''Orario 09:00-12:00'', start_date = sd, end_date = ed,
       days_of_week = [1, 2], begin_hour = ''09:00'', end_hour = ''12:00'',
       is_moderated = False, meeting_minutes = 30, interval_minutes = 0,
       meeting_queue = 1\<rparr>]"
  by (simp add: eval_day create_opening_hours_def build_opening_hours_def py_int_30
      lower_examples)




section \<open>Properties of the validation\<close>

lemma ones_literal:
  assumes "0 < n"
  shows "is_nat_literal (replicate n CHR ''1'')"
    and "strip (replicate n CHR ''1'') = replicate n CHR ''1''"
proof -
  have d: "is_decimal CHR ''1''" by (simp add: is_decimal_def)
  with assms show lit: "is_nat_literal (replicate n CHR ''1'')"
    by (simp add: is_nat_literal_def list_all_iff)
  have "\<not> isspace CHR ''1''" by (simp add: isspace_def)
  with assms show "strip (replicate n CHR ''1'') = replicate n CHR ''1''"
    by (intro strip_id) (simp add: hd_replicate last_replicate)
qed

lemma long_literal_row:
  assumes "is_nat_literal m" and "strip m = m" and "int_max_str_digits < length m"
  shows "process_opening_hours [[''A'', ''Chiuso'', ''09:00'', ''12:00'', m]] =
           Inr [((''09:00'', ''12:00'', ''30'', ''no''), [1])]"
proof -
  from assms(3) have "meeting_key m = ''30''" by (simp add: meeting_key_def)
  with assms(2) show ?thesis
    by (simp add: process_opening_hours_def days_mapping_def process_day_step day_open_def
        day_key_def strip_times valid_examples add_day_def)
qed

text \<open>
  C7, as stated, fails: a duration cell of 4301 digits is a non-negative integer
  literal, but \<^verbatim>\<open>int\<close> refuses more than 4300 digits with \<^verbatim>\<open>ValueError\<close>, which the
  code catches: the day is stored under the key built with \<^verbatim>\<open>30\<close>, not with the value.
\<close>

theorem long_literal_defaults:
  "is_nat_literal (replicate 4301 CHR ''1'') \<and>
   process_opening_hours
     [[''A'', ''Chiuso'', ''09:00'', ''12:00'', replicate 4301 CHR ''1'']] =
     Inr [((''09:00'', ''12:00'', ''30'', ''no''), [1])]"
proof -
  have p: "(0::nat) < 4301" by simp
  have l: "int_max_str_digits < length (replicate 4301 CHR ''1'')"
    by (simp add: int_max_str_digits_def)
  from ones_literal(1) [OF p] long_literal_row [OF ones_literal [OF p] l]
  show ?thesis by (rule conjI)
qed

text \<open>
  C7, amended: for every day of a row that passes the checks on its begin and end
  cells (enough cells, neither closed nor empty, both accepted by \<^verbatim>\<open>is_valid_time\<close>),
  the day is in the table: under the key built with the decimal form of the value when
  the trimmed duration cell is a non-negative integer literal of at most 4300 digits,
  and under the key built with \<^verbatim>\<open>30\<close> when it is not a non-negative integer literal or
  has more digits than that.
\<close>

theorem meeting_minutes_default:
  assumes "row \<in> set rows" and "(day_num, day_col) \<in> set days_mapping"
    and "day_col + 2 < length row"
    and "strip (row ! day_col) \<noteq> ''Chiuso''" and "strip (row ! (day_col + 1)) \<noteq> ''Chiuso''"
    and "strip (row ! day_col) \<noteq> []" and "strip (row ! (day_col + 1)) \<noteq> []"
    and "is_valid_time (strip (row ! day_col))"
    and "is_valid_time (strip (row ! (day_col + 1)))"
  shows "\<exists>time_slots. process_opening_hours rows = Inr time_slots \<and>
           has_day time_slots
             (strip (row ! day_col), strip (row ! (day_col + 1)),
              (if is_nat_literal (strip (row ! (day_col + 2))) \<and>
                  length (strip (row ! (day_col + 2))) \<le> 4300
               then str_nat (literal_value (strip (row ! (day_col + 2))))
               else ''30''),
              ''no'') day_num"
proof -
  obtain t where t: "for_rows [] rows = Inr t" using for_rows_total by blast
  from assms(3-9) have o: "day_open row day_col" by (simp add: day_open_def)
  from assms(1,2) o t have h: "has_day t (day_key row day_col) day_num" by (rule for_rows_adds)
  have k: "day_key row day_col =
      (strip (row ! day_col), strip (row ! (day_col + 1)),
       (if is_nat_literal (strip (row ! (day_col + 2))) \<and>
           length (strip (row ! (day_col + 2))) \<le> 4300
        then str_nat (literal_value (strip (row ! (day_col + 2))))
        else ''30''),
       ''no'')"
    by (simp add: day_key_def meeting_key_def int_max_str_digits_def)
  from t h show ?thesis unfolding k process_opening_hours_def by blast
qed

theorem meeting_minutes_default_witness:
  "(\<exists>time_slots.
      process_opening_hours
        [[''A'', ''Chiuso'', ''09:00'', ''12:00'', ''abc'', ''14:00'', ''18:00'', ''045'']] =
        Inr time_slots \<and>
      has_day time_slots (''09:00'', ''12:00'', ''30'', ''no'') 1) \<and>
   (\<exists>time_slots.
      process_opening_hours
        [[''A'', ''Chiuso'', ''09:00'', ''12:00'', ''abc'', ''14:00'', ''18:00'', ''045'']] =
        Inr time_slots \<and>
      has_day time_slots (''14:00'', ''18:00'', ''45'', ''no'') 2) \<and>
   is_valid_time ''09:00'' \<and> is_valid_time ''12:00'' \<and> is_valid_time ''14:00'' \<and>
   is_valid_time ''18:00'' \<and> \<not> is_nat_literal ''abc'' \<and> is_nat_literal ''045''"
proof -
  let ?row = "[''A'', ''Chiuso'', ''09:00'', ''12:00'', ''abc'', ''14:00'', ''18:00'', ''045'']"
  have r: "?row \<in> set [?row]" by simp
  have d1: "(1, 2) \<in> set days_mapping" and d2: "(2, 5) \<in> set days_mapping"
    by (simp_all add: days_mapping_def)
  have l1: "2 + 2 < length ?row" and l2: "5 + 2 < length ?row" by simp_all
  have c1: "strip (?row ! 2) \<noteq> ''Chiuso''" "strip (?row ! (2 + 1)) \<noteq> ''Chiuso''"
    "strip (?row ! 2) \<noteq> []" "strip (?row ! (2 + 1)) \<noteq> []"
    "is_valid_time (strip (?row ! 2))" "is_valid_time (strip (?row ! (2 + 1)))"
    by (simp_all add: strip_times valid_examples)
  have c2: "strip (?row ! 5) \<noteq> ''Chiuso''" "strip (?row ! (5 + 1)) \<noteq> ''Chiuso''"
    "strip (?row ! 5) \<noteq> []" "strip (?row ! (5 + 1)) \<noteq> []"
    "is_valid_time (strip (?row ! 5))" "is_valid_time (strip (?row ! (5 + 1)))"
    by (simp_all add: strip_more valid_examples)
  have v2: "str_nat (literal_value ''045'') = ''45''" by code_simp
  from meeting_minutes_default [OF r d1 l1 c1]
  have w1: "\<exists>time_slots. process_opening_hours [?row] = Inr time_slots \<and>
      has_day time_slots (''09:00'', ''12:00'', ''30'', ''no'') 1"
    by (simp add: strip_times strip_examples literal_examples)
  from meeting_minutes_default [OF r d2 l2 c2]
  have w2: "\<exists>time_slots. process_opening_hours [?row] = Inr time_slots \<and>
      has_day time_slots (''14:00'', ''18:00'', ''45'', ''no'') 2"
    by (simp add: strip_more strip_examples literal_examples v2)
  from w1 w2 valid_examples(1-4) literal_examples(2,3) show ?thesis by blast
qed




section \<open>Properties of reading\<close>

lemma clean_keeps_empty_rows:
  "[] \<in> set (clean_spreadsheet_data data) \<longleftrightarrow> [] \<in> set data"
  by (auto simp: clean_spreadsheet_data_map image_iff)

text \<open>
  C2, as stated, fails: a sheet of three rows has one data row left after the two header
  rows are removed, fewer than two, and \<^verbatim>\<open>read_spreadsheet\<close> returns \<^verbatim>\<open>True\<close>, logs
  nothing and stores the group of that row.
\<close>

theorem read_spreadsheet_one_data_row:
  "length (drop 2 [[''Name''], [''Day''], [''A'']]) < 2 \<and>
   read_spreadsheet \<lparr>calendar_groups = [], logged = []\<rparr> (Inr [[''Name''], [''Day''], [''A'']]) =
     (True, \<lparr>calendar_groups = [(''A'', [[''A'']])], logged = []\<rparr>)"
  by (simp add: read_spreadsheet_def clean_spreadsheet_data_map clean_cell_def
      group_calendar_data_def py_index_def strip_names lower_def lower_char_def)

text \<open>
  C2, amended: whenever the sheet has fewer than 2 rows in all, header rows included,
  \<^verbatim>\<open>read_spreadsheet\<close> returns \<^verbatim>\<open>False\<close> without raising, logs the warning and leaves
  \<^verbatim>\<open>calendar_groups\<close> as it was: no group is processed. A sheet of 2 rows or more is
  not stopped there and gets no warning; its rows after the first 2 are cleaned and
  grouped. When these rows all have a cell, the result is \<^verbatim>\<open>True\<close> with the groups of
  the cleaned rows (a sheet of exactly 2 rows gives \<^verbatim>\<open>True\<close> and changes nothing); when
  one of them has no cell, the \<^verbatim>\<open>IndexError\<close> of the grouping is caught and the result
  is \<^verbatim>\<open>False\<close> with an error logged.
\<close>

theorem read_spreadsheet_by_row_count:
  "(length data < 2 \<longrightarrow>
      read_spreadsheet self (Inr data) =
        (False, self\<lparr>logged := logged self @ [LogWarning ''No data found in spreadsheet'']\<rparr>)) \<and>
   (2 \<le> length data \<and> [] \<notin> set (drop 2 data) \<longrightarrow>
      (\<exists>groups.
         group_calendar_data (calendar_groups self) (clean_spreadsheet_data (drop 2 data)) =
           (None, groups) \<and>
         read_spreadsheet self (Inr data) = (True, self\<lparr>calendar_groups := groups\<rparr>))) \<and>
   (length data = 2 \<longrightarrow> read_spreadsheet self (Inr data) = (True, self)) \<and>
   (2 \<le> length data \<and> [] \<in> set (drop 2 data) \<longrightarrow>
      (\<exists>groups.
         read_spreadsheet self (Inr data) =
           (False, self\<lparr>calendar_groups := groups,
              logged := logged self @ [LogError ''Error reading spreadsheet: '' IndexError]\<rparr>)))"
proof (intro conjI impI)
  assume "length data < 2"
  then show "read_spreadsheet self (Inr data) =
        (False, self\<lparr>logged := logged self @ [LogWarning ''No data found in spreadsheet'']\<rparr>)"
    by (simp add: read_spreadsheet_def)
next
  assume a: "2 \<le> length data \<and> [] \<notin> set (drop 2 data)"
  then have ne: "data \<noteq> []" and len: "\<not> length data < 2" by auto
  from a have "\<forall>row \<in> set (clean_spreadsheet_data (drop 2 data)). row \<noteq> []"
    using clean_keeps_empty_rows [of "drop 2 data"] by blast
  then obtain r where
    "group_loop (calendar_groups self) [] [] (clean_spreadsheet_data (drop 2 data)) = Inr r"
    using group_loop_nonempty by blast
  then obtain groups where
    g: "group_calendar_data (calendar_groups self) (clean_spreadsheet_data (drop 2 data)) =
          (None, groups)"
    by (cases r) (simp add: group_calendar_data_def)
  with ne len show "\<exists>groups.
         group_calendar_data (calendar_groups self) (clean_spreadsheet_data (drop 2 data)) =
           (None, groups) \<and>
         read_spreadsheet self (Inr data) = (True, self\<lparr>calendar_groups := groups\<rparr>)"
    by (simp add: read_spreadsheet_def)
next
  assume "length data = 2"
  then show "read_spreadsheet self (Inr data) = (True, self)"
    by (auto simp: read_spreadsheet_def clean_spreadsheet_data_def group_calendar_data_def)
next
  assume a: "2 \<le> length data \<and> [] \<in> set (drop 2 data)"
  then have ne: "data \<noteq> []" and len: "\<not> length data < 2" by auto
  from a have "[] \<in> set (clean_spreadsheet_data (drop 2 data))"
    by (simp add: clean_keeps_empty_rows)
  then obtain gs where
    "group_loop (calendar_groups self) [] [] (clean_spreadsheet_data (drop 2 data)) =
       Inl (IndexError, gs)"
    using group_loop_empty_row by blast
  then have "group_calendar_data (calendar_groups self) (clean_spreadsheet_data (drop 2 data)) =
       (Some IndexError, gs)"
    by (simp add: group_calendar_data_def)
  with ne len show "\<exists>groups.
         read_spreadsheet self (Inr data) =
           (False, self\<lparr>calendar_groups := groups,
              logged := logged self @ [LogError ''Error reading spreadsheet: '' IndexError]\<rparr>)"
    by (intro exI [of _ gs]) (simp add: read_spreadsheet_def)
qed

theorem read_spreadsheet_by_row_count_witness:
  "length [[''Name'']] < 2 \<and>
   read_spreadsheet \<lparr>calendar_groups = [], logged = []\<rparr> (Inr [[''Name'']]) =
     (False, \<lparr>calendar_groups = [], logged = [LogWarning ''No data found in spreadsheet'']\<rparr>) \<and>
   length [[''Name''], [''Day'']] = 2 \<and>
   read_spreadsheet \<lparr>calendar_groups = [], logged = []\<rparr> (Inr [[''Name''], [''Day'']]) =
     (True, \<lparr>calendar_groups = [], logged = []\<rparr>) \<and>
   [] \<notin> set (drop 2 [[''Name''], [''Day''], [''A'']]) \<and>
   read_spreadsheet \<lparr>calendar_groups = [], logged = []\<rparr> (Inr [[''Name''], [''Day''], [''A'']]) =
     (True, \<lparr>calendar_groups = [(''A'', [[''A'']])], logged = []\<rparr>) \<and>
   [] \<in> set (drop 2 [[''Name''], [''Day''], [''A''], []]) \<and>
   read_spreadsheet \<lparr>calendar_groups = [], logged = []\<rparr>
       (Inr [[''Name''], [''Day''], [''A''], []]) =
     (False, \<lparr>calendar_groups = [],
        logged = [LogError ''Error reading spreadsheet: '' IndexError]\<rparr>)"
proof -
  let ?s = "\<lparr>calendar_groups = [], logged = []\<rparr>"
  have h1: "length [[''Name'']] < 2" by simp
  with read_spreadsheet_by_row_count [of "[[''Name'']]" ?s]
  have w1: "read_spreadsheet ?s (Inr [[''Name'']]) =
     (False, \<lparr>calendar_groups = [], logged = [LogWarning ''No data found in spreadsheet'']\<rparr>)"
    by simp
  have h2: "length [[''Name''], [''Day'']] = 2" by simp
  with read_spreadsheet_by_row_count [of "[[''Name''], [''Day'']]" ?s]
  have w2: "read_spreadsheet ?s (Inr [[''Name''], [''Day'']]) = (True, ?s)"
    by blast
  have h3: "[] \<notin> set (drop 2 [[''Name''], [''Day''], [''A'']])" by simp
  have g3: "group_calendar_data [] (clean_spreadsheet_data [[''A'']]) =
      (None, [(''A'', [[''A'']])])"
    by (simp add: clean_spreadsheet_data_map clean_cell_def group_calendar_data_def
        py_index_def strip_names lower_def lower_char_def)
  from read_spreadsheet_by_row_count [of "[[''Name''], [''Day''], [''A'']]" ?s] h3
  have w3: "read_spreadsheet ?s (Inr [[''Name''], [''Day''], [''A'']]) =
     (True, \<lparr>calendar_groups = [(''A'', [[''A'']])], logged = []\<rparr>)"
    by (auto simp: g3)
  have h4: "[] \<in> set (drop 2 [[''Name''], [''Day''], [''A''], []])" by simp
  have g4: "group_calendar_data [] (clean_spreadsheet_data [[''A''], []]) =
      (Some IndexError, [])"
    by (simp add: clean_spreadsheet_data_map clean_cell_def group_calendar_data_def
        py_index_def strip_names lower_def lower_char_def)
  from read_spreadsheet_by_row_count [of "[[''Name''], [''Day''], [''A''], []]" ?s] h4
  obtain groups where r4: "read_spreadsheet ?s (Inr [[''Name''], [''Day''], [''A''], []]) =
     (False, ?s\<lparr>calendar_groups := groups,
        logged := logged ?s @ [LogError ''Error reading spreadsheet: '' IndexError]\<rparr>)"
    by auto
  have e4: "read_spreadsheet ?s (Inr [[''Name''], [''Day''], [''A''], []]) =
     (False, \<lparr>calendar_groups = [],
        logged = [LogError ''Error reading spreadsheet: '' IndexError]\<rparr>)"
    by (simp add: read_spreadsheet_def g4)
  from r4 e4 have w4: "read_spreadsheet ?s (Inr [[''Name''], [''Day''], [''A''], []]) =
     (False, \<lparr>calendar_groups = [],
        logged = [LogError ''Error reading spreadsheet: '' IndexError]\<rparr>)"
    by simp
  from h1 w1 h2 w2 h3 w3 h4 w4 show ?thesis by blast
qed

end
